theory Spec2Isabelle
  imports Main
begin

section \<open>The client script of VICTUS (static/script.js) as an event-driven state machine\<close>

text \<open>
  The script registers its handlers inside one \<open>DOMContentLoaded\<close> callback and then only
  reacts to events. The browser runs one handler at a time; an \<open>async\<close> handler runs until
  its next \<open>await\<close>, is parked, and is resumed when the awaited promise settles. The model
  follows that: a record holds the variables of the closure and the parts of the page the
  script reads or writes, every handler is a function on that record, every \<open>await\<close> parks
  a continuation in \<open>pending\<close>, and the environment chooses which event comes next.

  JavaScript strings are modelled as \<open>string\<close>, so their code units are restricted to the
  range below 256.
\<close>

subsection \<open>Strings\<close>

text \<open>The code units below 256 that \<open>String.prototype.trim\<close> removes: TAB, LF, VT, FF, CR,
  SPACE and NO-BREAK SPACE.\<close>

definition isWhite :: "char \<Rightarrow> bool" where
  "isWhite c = (c \<in> set [CHR 0x09, CHR 0x0A, CHR 0x0B, CHR 0x0C, CHR 0x0D, CHR 0x20, CHR 0xA0])"

definition trim :: "string \<Rightarrow> string" where
  "trim s = rev (dropWhile isWhite (rev (dropWhile isWhite s)))"

text \<open>\<open>a || b\<close> on a field that is a string or absent: an absent field and the empty
  string are both falsy.\<close>

fun or_else :: "string option \<Rightarrow> string \<Rightarrow> string" where
  "or_else None g = g"
| "or_else (Some d) g = (if d = [] then g else d)"

text \<open>A field of a parsed body that is absent reads as \<open>undefined\<close>. Assigned to
  \<open>textContent\<close> it leaves no text; assigned to the \<open>value\<close> of the text input it leaves
  the text \<open>undefined\<close>.\<close>

fun textContent :: "string option \<Rightarrow> string" where
  "textContent None = []"
| "textContent (Some t) = t"

fun inputValue :: "string option \<Rightarrow> string" where
  "inputValue None = ''undefined''"
| "inputValue (Some t) = t"

subsection \<open>Data\<close>

datatype sender = User | AI

record message =
  mtext :: string
  msender :: sender

type_synonym blob = string

text \<open>The four remote calls, with what the script puts into each request.\<close>

datatype request =
    ChatReq string string
  | TranscribeReq "blob list"
  | SynthesizeReq string
  | UploadReq string

text \<open>What the script does to the outside, in the order in which it does it.\<close>

datatype effect =
    Appended message
  | Fetched request
  | Alerted string
  | Played string
  | PlayedNoSource
  | AskedDevice

text \<open>A parsed JSON body: an object whose fields, where present, are strings.\<close>

record json =
  detail :: "string option"
  response :: "string option"
  transcription :: "string option"
  audio_url :: "string option"

text \<open>How an awaited promise settles: it rejects with an error carrying a message,
  \<open>fetch\<close> resolves with a response whose \<open>ok\<close> flag is given, \<open>response.json()\<close>
  resolves with the parsed body, \<open>getUserMedia\<close> resolves with a stream.\<close>

datatype settle = Rejects string | Resp bool | Body json | Stream

text \<open>The places where a handler can be parked: one per \<open>await\<close> of the script. The upload
  handler keeps \<open>file.name\<close> and, across its second await, \<open>response.ok\<close>.\<close>

datatype cont =
    ChatFetch
  | ChatErrorJson
  | ChatDataJson
  | TranscribeFetch
  | TranscribeJson
  | SynthFetch
  | SynthJson
  | UploadFetch string
  | UploadJson bool string
  | DeviceGrant

datatype recstate = Recording | Stopping | Finished

record storage =
  item :: "string option"
  readable :: bool
  writable :: bool

datatype error = SecurityError | QuotaExceededError

record state =
  sessionId :: string
  isNewSession :: bool
  localStorage :: storage
  hasMedia :: bool
  messageInput :: string
  fileUpload :: "string list"
  busy :: bool
  transcript :: "message list"
  recorders :: "recstate list"
  mediaRecorder :: "nat option"
  audioChunks :: "blob list"
  isRecording :: bool
  micRecording :: bool
  pending :: "cont list"
  trace :: "effect list"

text \<open>
  \<^item> \<open>busy\<close> is \<open>loadingIndicator.style.display = 'flex'\<close>;
  \<^item> \<open>transcript\<close> is the list of children of \<open>chatWindow\<close>;
  \<^item> \<open>fileUpload\<close> is the list of names of the files held by the file input, which
    assigning \<open>''\<close> to its \<open>value\<close> empties;
  \<^item> \<open>recorders\<close> holds every \<open>MediaRecorder\<close> created so far and \<open>mediaRecorder\<close>
    the index of the one the variable refers to; a recorder whose \<open>stop()\<close> was called is
    \<open>inactive\<close> for the script (\<open>Stopping\<close> until its \<open>stop\<close> event has fired,
    \<open>Finished\<close> after);
  \<^item> \<open>micRecording\<close> is the class \<open>recording\<close> on the microphone button.
\<close>

subsection \<open>Session identity (lines 10 to 17) and page load\<close>

definition getItem :: "storage \<Rightarrow> error + string option" where
  "getItem st = (if readable st then Inr (item st) else Inl SecurityError)"

definition setItem :: "string \<Rightarrow> storage \<Rightarrow> error + storage" where
  "setItem v st = (if writable st then Inr (st\<lparr>item := Some v\<rparr>) else Inl QuotaExceededError)"

text \<open>The template \<open>sess_${Date.now()}_${Math.random().toString(36).substr(2, 9)}\<close>, the
  clock and the random digits being given.\<close>

definition newSessionId :: "string \<Rightarrow> string \<Rightarrow> string" where
  "newSessionId now rnd = ''sess_'' @ now @ ''_'' @ rnd"

text \<open>\<open>!sessionId\<close> on what \<open>getItem\<close> returned: \<open>null\<close> and the empty string are falsy.\<close>

definition falsy :: "string option \<Rightarrow> bool" where
  "falsy v = (case v of None \<Rightarrow> True | Some x \<Rightarrow> x = [])"

text \<open>Lines 14 to 16, the body of the \<open>if\<close>.\<close>

definition createSession :: "storage \<Rightarrow> string \<Rightarrow> string \<Rightarrow> error + (string \<times> storage \<times> bool)" where
  "createSession st now rnd =
     (case setItem (newSessionId now rnd) st of
        Inl e \<Rightarrow> Inl e
      | Inr st' \<Rightarrow> Inr (newSessionId now rnd, st', True))"

text \<open>The result is the token, the storage and the flag \<open>isNewSession\<close>. Nothing catches an
  exception of \<open>getItem\<close> or \<open>setItem\<close>: it leaves the \<open>DOMContentLoaded\<close> callback.\<close>

definition getOrCreate :: "storage \<Rightarrow> string \<Rightarrow> string \<Rightarrow> error + (string \<times> storage \<times> bool)" where
  "getOrCreate st now rnd =
     (case getItem st of
        Inl e \<Rightarrow> Inl e
      | Inr None \<Rightarrow> createSession st now rnd
      | Inr (Some sid) \<Rightarrow>
          if falsy (Some sid) then createSession st now rnd else Inr (sid, st, False))"

definition greeting :: string where
  "greeting = ''Hello! I'' @ [CHR 0x27] @ ''m VICTUS, your personal AI assistant. How can I help you today?''"

definition addMessageToChat :: "string \<Rightarrow> sender \<Rightarrow> state \<Rightarrow> state" where
  "addMessageToChat m sender s =
     s\<lparr>transcript := transcript s @ [\<lparr>mtext = m, msender = sender\<rparr>],
       trace := trace s @ [Appended \<lparr>mtext = m, msender = sender\<rparr>]\<rparr>"

text \<open>Modelled from the spec: the markup and the style sheet of the page are not among the
  sources, so the state of the page before the script runs is taken from the specification:
  the busy signal is off before the first operation, the transcript, the text input and the
  file input are empty.\<close>

definition blank :: "string \<Rightarrow> storage \<Rightarrow> bool \<Rightarrow> state" where
  "blank sid st hm =
     \<lparr>sessionId = sid, isNewSession = False, localStorage = st, hasMedia = hm,
      messageInput = [], fileUpload = [], busy = False, transcript = [],
      recorders = [], mediaRecorder = None, audioChunks = [], isRecording = False,
      micRecording = False, pending = [], trace = []\<rparr>"

text \<open>The \<open>DOMContentLoaded\<close> callback: the session identity, the registration of the
  handlers, and the greeting of a new session.\<close>

definition pageLoad :: "storage \<Rightarrow> string \<Rightarrow> string \<Rightarrow> bool \<Rightarrow> error + state" where
  "pageLoad st now rnd hm =
     (case getOrCreate st now rnd of
        Inl e \<Rightarrow> Inl e
      | Inr (sid, st', new) \<Rightarrow>
          let s = (blank sid st' hm)\<lparr>isNewSession := new\<rparr>
          in Inr (if new then addMessageToChat greeting AI s else s))"

subsection \<open>Suspension\<close>

definition await :: "cont \<Rightarrow> state \<Rightarrow> state" where
  "await k s = s\<lparr>pending := pending s @ [k]\<rparr>"

definition fetch :: "request \<Rightarrow> cont \<Rightarrow> state \<Rightarrow> state" where
  "fetch r k s = await k (s\<lparr>trace := trace s @ [Fetched r]\<rparr>)"

definition alert :: "string \<Rightarrow> state \<Rightarrow> state" where
  "alert m s = s\<lparr>trace := trace s @ [Alerted m]\<rparr>"

subsection \<open>Chat (lines 96 to 127)\<close>

definition submit :: "state \<Rightarrow> state" where
  "submit s =
     (let message = trim (messageInput s) in
      if message = [] then s
      else fetch (ChatReq message (sessionId s)) ChatFetch
             ((addMessageToChat message User s)\<lparr>messageInput := [], busy := True\<rparr>))"

definition chatCatch :: "string \<Rightarrow> state \<Rightarrow> state" where
  "chatCatch m s = (addMessageToChat (''Error: '' @ m) AI s)\<lparr>busy := False\<rparr>"

subsection \<open>Recording and transcription (lines 24 to 86)\<close>

definition startRecording :: "state \<Rightarrow> state" where
  "startRecording s =
     (if \<not> hasMedia s then alert ''Your browser does not support audio recording.'' s
      else await DeviceGrant (s\<lparr>trace := trace s @ [AskedDevice]\<rparr>))"

definition granted :: "state \<Rightarrow> state" where
  "granted s =
     s\<lparr>mediaRecorder := Some (length (recorders s)),
       recorders := recorders s @ [Recording],
       isRecording := True, micRecording := True\<rparr>"

definition denied :: "state \<Rightarrow> state" where
  "denied s = alert ''Could not access microphone. Please grant permission.'' s"

definition recorderState :: "state \<Rightarrow> nat \<Rightarrow> recstate" where
  "recorderState s i = (if i < length (recorders s) then recorders s ! i else Finished)"

definition stopRecording :: "state \<Rightarrow> state" where
  "stopRecording s =
     (case mediaRecorder s of
        None \<Rightarrow> s
      | Some i \<Rightarrow>
          if recorderState s i = Recording then
            s\<lparr>recorders := (recorders s)[i := Stopping],
              isRecording := False, micRecording := False\<rparr>
          else s)"

definition micClick :: "state \<Rightarrow> state" where
  "micClick s = (if isRecording s then stopRecording s else startRecording s)"

definition sendAudioForTranscription :: "state \<Rightarrow> state" where
  "sendAudioForTranscription s =
     (if audioChunks s = [] then s
      else fetch (TranscribeReq (audioChunks s)) TranscribeFetch
             (s\<lparr>busy := True, audioChunks := []\<rparr>))"

definition transcribeCatch :: "state \<Rightarrow> state" where
  "transcribeCatch s = (addMessageToChat ''Error transcribing audio.'' AI s)\<lparr>busy := False\<rparr>"

text \<open>Lines 78 to 85: the transcription goes into the text input, \<open>dispatchEvent\<close> runs the
  submit handler at once, up to its first \<open>await\<close>, and then the \<open>finally\<close> block of the
  transcription handler runs.\<close>

definition transcribed :: "string \<Rightarrow> state \<Rightarrow> state" where
  "transcribed t s = (submit (s\<lparr>messageInput := t\<rparr>))\<lparr>busy := False\<rparr>"

subsection \<open>Speech synthesis (lines 160 to 180)\<close>

definition speakText :: "string \<Rightarrow> state \<Rightarrow> state" where
  "speakText t s = fetch (SynthesizeReq t) SynthFetch (s\<lparr>busy := True\<rparr>)"

definition synthCatch :: "state \<Rightarrow> state" where
  "synthCatch s = (alert ''Could not play audio.'' s)\<lparr>busy := False\<rparr>"

definition playAudio :: "string \<Rightarrow> state \<Rightarrow> state" where
  "playAudio u s = (s\<lparr>trace := trace s @ [Played u]\<rparr>)\<lparr>busy := False\<rparr>"

text \<open>Lines 172 to 178 when the body has no \<open>audio_url\<close>: the \<open>Audio\<close> element is built
  without a source and told to play; nothing waits for what becomes of that.\<close>

definition playNoSource :: "state \<Rightarrow> state" where
  "playNoSource s = (s\<lparr>trace := trace s @ [PlayedNoSource]\<rparr>)\<lparr>busy := False\<rparr>"

subsection \<open>Upload (lines 185 to 214)\<close>

definition uploaded :: "string \<Rightarrow> string" where
  "uploaded name = ''Successfully uploaded and indexed '' @ [CHR 0x22] @ name @ [CHR 0x22]
                     @ ''. You can now ask questions about it.''"

definition fileChange :: "state \<Rightarrow> state" where
  "fileChange s =
     (case fileUpload s of
        [] \<Rightarrow> s
      | file # _ \<Rightarrow> fetch (UploadReq file) (UploadFetch file) (s\<lparr>busy := True\<rparr>))"

definition uploadFinally :: "state \<Rightarrow> state" where
  "uploadFinally s = s\<lparr>busy := False, fileUpload := []\<rparr>"

definition uploadCatch :: "string \<Rightarrow> state \<Rightarrow> state" where
  "uploadCatch m s = uploadFinally (addMessageToChat (''Error: '' @ m) AI s)"

subsection \<open>Resuming a parked handler\<close>

text \<open>\<open>resume k v s\<close> continues the handler parked at \<open>k\<close> with the settlement \<open>v\<close>. The
  result is \<open>None\<close> only where \<open>v\<close> is not a settlement that the promise awaited at \<open>k\<close>
  can have: a \<open>fetch\<close> rejects or resolves with a response, \<open>json()\<close> rejects or resolves
  with a body, \<open>getUserMedia\<close> rejects or resolves with a stream. The script reads the
  fields of a body without testing them, so a body without \<open>response\<close>, \<open>transcription\<close>
  or \<open>audio_url\<close> takes the same path as one with it.\<close>

fun resume :: "cont \<Rightarrow> settle \<Rightarrow> state \<Rightarrow> state option" where
  "resume ChatFetch (Rejects m) s = Some (chatCatch m s)"
| "resume ChatFetch (Resp ok) s = Some (await (if ok then ChatDataJson else ChatErrorJson) s)"
| "resume ChatErrorJson (Rejects m) s = Some (chatCatch m s)"
| "resume ChatErrorJson (Body errorData) s =
     Some (chatCatch (or_else (detail errorData) ''An error occurred'') s)"
| "resume ChatDataJson (Rejects m) s = Some (chatCatch m s)"
| "resume ChatDataJson (Body data) s =
     Some ((addMessageToChat (textContent (response data)) AI s)\<lparr>busy := False\<rparr>)"
| "resume TranscribeFetch (Rejects m) s = Some (transcribeCatch s)"
| "resume TranscribeFetch (Resp ok) s =
     Some (if ok then await TranscribeJson s else transcribeCatch s)"
| "resume TranscribeJson (Rejects m) s = Some (transcribeCatch s)"
| "resume TranscribeJson (Body data) s =
     Some (transcribed (inputValue (transcription data)) s)"
| "resume SynthFetch (Rejects m) s = Some (synthCatch s)"
| "resume SynthFetch (Resp ok) s = Some (if ok then await SynthJson s else synthCatch s)"
| "resume SynthJson (Rejects m) s = Some (synthCatch s)"
| "resume SynthJson (Body data) s =
     Some (case audio_url data of None \<Rightarrow> playNoSource s | Some u \<Rightarrow> playAudio u s)"
| "resume (UploadFetch file) (Rejects m) s = Some (uploadCatch m s)"
| "resume (UploadFetch file) (Resp ok) s = Some (await (UploadJson ok file) s)"
| "resume (UploadJson ok file) (Rejects m) s = Some (uploadCatch m s)"
| "resume (UploadJson ok file) (Body data) s =
     Some (if ok then uploadFinally (addMessageToChat (uploaded file) AI s)
           else uploadCatch (or_else (detail data) ''Upload failed'') s)"
| "resume DeviceGrant (Rejects m) s = Some (denied s)"
| "resume DeviceGrant Stream s = Some (granted s)"
| "resume _ _ _ = None"

subsection \<open>Events\<close>

text \<open>
  \<^item> \<open>Type t\<close>: the user edits the text input, leaving \<open>t\<close> in it;
  \<^item> \<open>Submit\<close>: a \<open>submit\<close> event on the form (the button, or Enter without Shift);
  \<^item> \<open>MicClick\<close>: a click on the microphone button;
  \<^item> \<open>PickFile fs\<close>: a \<open>change\<close> event on the file input, which then holds \<open>fs\<close>;
  \<^item> \<open>SpeakerClick n\<close>: a click on the speaker button of the \<open>n\<close>-th message, which
    calls \<open>speakText\<close> with that message's text (for a message appended without a text,
    the request of the model carries the empty text);
  \<^item> \<open>Settle k v\<close>: the promise awaited by the \<open>k\<close>-th parked handler settles as \<open>v\<close>;
  \<^item> \<open>DataAvailable i b\<close> and \<open>Stopped i\<close>: the events that the \<open>i\<close>-th recorder fires
    after its \<open>stop()\<close> was called.
\<close>

datatype event =
    Type string
  | Submit
  | MicClick
  | PickFile "string list"
  | SpeakerClick nat
  | Settle nat settle
  | DataAvailable nat blob
  | Stopped nat

definition unpark :: "nat \<Rightarrow> state \<Rightarrow> state" where
  "unpark k s = s\<lparr>pending := take k (pending s) @ drop (Suc k) (pending s)\<rparr>"

fun step :: "event \<Rightarrow> state \<Rightarrow> state option" where
  "step (Type t) s = Some (s\<lparr>messageInput := t\<rparr>)"
| "step Submit s = Some (submit s)"
| "step MicClick s = Some (micClick s)"
| "step (PickFile fs) s = Some (fileChange (s\<lparr>fileUpload := fs\<rparr>))"
| "step (SpeakerClick n) s =
     (if n < length (transcript s) \<and> msender (transcript s ! n) = AI
      then Some (speakText (mtext (transcript s ! n)) s) else None)"
| "step (Settle k v) s =
     (if k < length (pending s) then resume (pending s ! k) v (unpark k s) else None)"
| "step (DataAvailable i b) s =
     (if recorderState s i = Stopping then Some (s\<lparr>audioChunks := audioChunks s @ [b]\<rparr>)
      else None)"
| "step (Stopped i) s =
     (if recorderState s i = Stopping
      then Some (sendAudioForTranscription (s\<lparr>recorders := (recorders s)[i := Finished]\<rparr>))
      else None)"

fun run :: "event list \<Rightarrow> state \<Rightarrow> state option" where
  "run [] s = Some s"
| "run (e # es) s = (case step e s of None \<Rightarrow> None | Some s' \<Rightarrow> run es s')"

subsection \<open>Observations on runs\<close>

text \<open>The settlements that the promise awaited at a parking place can have.\<close>

fun fits :: "cont \<Rightarrow> settle \<Rightarrow> bool" where
  "fits c (Rejects m) = True"
| "fits ChatFetch (Resp ok) = True"
| "fits TranscribeFetch (Resp ok) = True"
| "fits SynthFetch (Resp ok) = True"
| "fits (UploadFetch file) (Resp ok) = True"
| "fits ChatErrorJson (Body data) = True"
| "fits ChatDataJson (Body data) = True"
| "fits TranscribeJson (Body data) = True"
| "fits SynthJson (Body data) = True"
| "fits (UploadJson ok file) (Body data) = True"
| "fits DeviceGrant Stream = True"
| "fits c v = False"

text \<open>The parked handlers that belong to one of the four remote operations: all but the
  request for the capture device.\<close>

definition remote :: "cont list \<Rightarrow> cont list" where
  "remote ks = filter (\<lambda>k. k \<noteq> DeviceGrant) ks"

text \<open>The busy signal is on only while a handler of a remote operation is parked.\<close>

definition gated :: "state \<Rightarrow> bool" where
  "gated s = (busy s \<longrightarrow> remote (pending s) \<noteq> [])"

text \<open>The number of recorders that are capturing.\<close>

definition capturing :: "state \<Rightarrow> nat" where
  "capturing s = length (filter (\<lambda>r. r = Recording) (recorders s))"

text \<open>The number of requests for the capture device that wait for their answer, and the
  discipline that the toggle keeps: a capturing recorder is the one the variable
  \<open>mediaRecorder\<close> refers to, with \<open>isRecording\<close> set; no recorder is capturing while a
  request for the device waits; at most one request waits.\<close>

definition grants :: "state \<Rightarrow> nat" where
  "grants s = length (filter (\<lambda>k. k = DeviceGrant) (pending s))"

definition tidy :: "state \<Rightarrow> bool" where
  "tidy s =
     ((\<forall>i < length (recorders s).
         recorders s ! i = Recording \<longrightarrow> mediaRecorder s = Some i \<and> isRecording s) \<and>
      (0 < grants s \<longrightarrow> Recording \<notin> set (recorders s)) \<and>
      grants s \<le> 1)"

text \<open>A run in which the microphone button is never clicked while a request for the capture
  device is still waiting for its answer.\<close>

fun calm :: "event list \<Rightarrow> state \<Rightarrow> bool" where
  "calm [] s = True"
| "calm (e # es) s =
     ((e = MicClick \<longrightarrow> DeviceGrant \<notin> set (pending s)) \<and>
      (case step e s of None \<Rightarrow> True | Some s' \<Rightarrow> calm es s'))"

subsection \<open>Concrete pages and bodies\<close>

text \<open>The page of a returning visitor, right after loading, and a JSON body given by its
  four fields.\<close>

definition page0 :: state where
  "page0 = blank ''sess_1_abc'' \<lparr>item = Some ''sess_1_abc'', readable = True, writable = True\<rparr> True"

definition reply :: "string option \<Rightarrow> string option \<Rightarrow> string option \<Rightarrow> string option \<Rightarrow> json" where
  "reply d r t u = \<lparr>detail = d, response = r, transcription = t, audio_url = u\<rparr>"

section \<open>Properties\<close>

lemmas handler_defs = submit_def fetch_def await_def addMessageToChat_def alert_def chatCatch_def
  transcribeCatch_def transcribed_def speakText_def synthCatch_def playAudio_def playNoSource_def
  fileChange_def
  uploadFinally_def uploadCatch_def startRecording_def granted_def denied_def stopRecording_def
  micClick_def sendAudioForTranscription_def unpark_def

text \<open>
  Claim C4, as amended. \<open>getOrCreate\<close> cannot fail while the persistent storage can be read
  and, when it holds no token, written: it returns the stored token and leaves the storage
  alone, or it builds a token, stores it, returns it and raises the flag of a new session.
  A failure of the storage is not caught: a failing read, or a failing write of a new token,
  is the result of \<open>getOrCreate\<close>, and no token exists for that page load.
\<close>

theorem getOrCreate_storage:
  "(readable st \<and> item st = Some sid \<and> sid \<noteq> [] \<longrightarrow>
      getOrCreate st now rnd = Inr (sid, st, False)) \<and>
   (readable st \<and> falsy (item st) \<and> writable st \<longrightarrow>
      getOrCreate st now rnd
        = Inr (newSessionId now rnd, st\<lparr>item := Some (newSessionId now rnd)\<rparr>, True)) \<and>
   (\<not> readable st \<longrightarrow> getOrCreate st now rnd = Inl SecurityError) \<and>
   (readable st \<and> falsy (item st) \<and> \<not> writable st \<longrightarrow>
      getOrCreate st now rnd = Inl QuotaExceededError)"
  by (auto simp add: getOrCreate_def createSession_def getItem_def setItem_def falsy_def
        split: option.splits)

theorem getOrCreate_storage_witness:
  "readable \<lparr>item = None, readable = True, writable = True\<rparr> \<and>
   falsy (item \<lparr>item = None, readable = True, writable = True\<rparr>) \<and>
   writable \<lparr>item = None, readable = True, writable = True\<rparr> \<and>
   getOrCreate \<lparr>item = None, readable = True, writable = True\<rparr> ''1700000000000'' ''k3j9x0a1b''
     = Inr (''sess_1700000000000_k3j9x0a1b'',
            \<lparr>item = Some ''sess_1700000000000_k3j9x0a1b'', readable = True, writable = True\<rparr>,
            True)"
proof -
  have h: "readable \<lparr>item = None, readable = True, writable = True\<rparr> \<and>
           falsy (item \<lparr>item = None, readable = True, writable = True\<rparr>) \<and>
           writable \<lparr>item = None, readable = True, writable = True\<rparr>"
    by (simp add: falsy_def)
  show ?thesis
    using h getOrCreate_storage [of "\<lparr>item = None, readable = True, writable = True\<rparr>"
        "''x''" "''1700000000000''" "''k3j9x0a1b''"]
    by (simp add: newSessionId_def)
qed

text \<open>
  Claim C4 as stated fails: with a storage that cannot be read, or that cannot be written
  when no token is stored, there is no ephemeral token; the exception ends the page load.
\<close>

theorem getOrCreate_storage_failure_counterexample:
  "getOrCreate \<lparr>item = None, readable = False, writable = True\<rparr> ''1700000000000'' ''k3j9x0a1b''
     = Inl SecurityError \<and>
   pageLoad \<lparr>item = None, readable = False, writable = True\<rparr> ''1700000000000'' ''k3j9x0a1b'' True
     = Inl SecurityError \<and>
   pageLoad \<lparr>item = None, readable = True, writable = False\<rparr> ''1700000000000'' ''k3j9x0a1b'' True
     = Inl QuotaExceededError"
  by (simp add: pageLoad_def getOrCreate_def createSession_def getItem_def setItem_def falsy_def)

text \<open>
  Claim C5. Each empty input is a no-op: a submission whose text trims to the empty string,
  the end of a recording that collected no fragment, and a file-selection event without a
  file leave the whole state as it is, so no message is appended, no request is issued, and
  nothing is reported.
\<close>

theorem empty_input_is_noop:
  "(trim (messageInput s) = [] \<longrightarrow> submit s = s) \<and>
   (audioChunks s = [] \<longrightarrow> sendAudioForTranscription s = s) \<and>
   (fileUpload s = [] \<longrightarrow> fileChange s = s)"
  by (simp add: submit_def sendAudioForTranscription_def fileChange_def)

theorem empty_input_is_noop_witness:
  "trim (messageInput (page0\<lparr>messageInput := '' ''\<rparr>)) = [] \<and>
   submit (page0\<lparr>messageInput := '' ''\<rparr>) = page0\<lparr>messageInput := '' ''\<rparr> \<and>
   audioChunks (page0\<lparr>messageInput := '' ''\<rparr>) = [] \<and>
   sendAudioForTranscription (page0\<lparr>messageInput := '' ''\<rparr>) = page0\<lparr>messageInput := '' ''\<rparr> \<and>
   fileUpload (page0\<lparr>messageInput := '' ''\<rparr>) = [] \<and>
   fileChange (page0\<lparr>messageInput := '' ''\<rparr>) = page0\<lparr>messageInput := '' ''\<rparr>"
proof -
  have h: "trim (messageInput (page0\<lparr>messageInput := '' ''\<rparr>)) = [] \<and>
           audioChunks (page0\<lparr>messageInput := '' ''\<rparr>) = [] \<and>
           fileUpload (page0\<lparr>messageInput := '' ''\<rparr>) = []"
    by (simp add: page0_def blank_def trim_def isWhite_def)
  show ?thesis
    using h empty_input_is_noop [of "page0\<lparr>messageInput := '' ''\<rparr>"] by simp
qed

text \<open>
  Claim C6. When the text trims to a non-empty \<open>m\<close>, the submit handler appends the user
  message and only then issues the chat request; when the request succeeds with a body
  whose \<open>response\<close> is \<open>r\<close>, exactly one assistant message with text \<open>r\<close> follows,
  directly after the user message when nothing else happens in between, and at the end of
  the transcript of that moment in general. The witness is scenario C: "Hello" answered by
  "Hi!".
\<close>

theorem sendChat_success:
  "(trim (messageInput s) = m \<and> m \<noteq> [] \<and> response data = Some r \<longrightarrow>
     trace (submit s) = trace s @ [Appended \<lparr>mtext = m, msender = User\<rparr>,
                                   Fetched (ChatReq m (sessionId s))] \<and>
     transcript (submit s) = transcript s @ [\<lparr>mtext = m, msender = User\<rparr>] \<and>
     pending (submit s) = pending s @ [ChatFetch] \<and>
     map_option transcript
       (run [Submit, Settle (length (pending s)) (Resp True),
             Settle (length (pending s)) (Body data)] s)
       = Some (transcript s @ [\<lparr>mtext = m, msender = User\<rparr>, \<lparr>mtext = r, msender = AI\<rparr>])) \<and>
   (k < length (pending s) \<and> pending s ! k = ChatDataJson \<and> response data = Some r \<longrightarrow>
     map_option transcript (step (Settle k (Body data)) s)
       = Some (transcript s @ [\<lparr>mtext = r, msender = AI\<rparr>]))"
  by (simp add: handler_defs)

theorem sendChat_success_witness:
  "trim (messageInput (page0\<lparr>messageInput := ''Hello''\<rparr>)) = ''Hello'' \<and>
   map_option transcript
     (run [Submit, Settle 0 (Resp True), Settle 0 (Body (reply None (Some ''Hi!'') None None))]
        (page0\<lparr>messageInput := ''Hello''\<rparr>))
     = Some [\<lparr>mtext = ''Hello'', msender = User\<rparr>, \<lparr>mtext = ''Hi!'', msender = AI\<rparr>]"
proof -
  have h: "trim (messageInput (page0\<lparr>messageInput := ''Hello''\<rparr>)) = ''Hello'' \<and>
           ''Hello'' \<noteq> [] \<and> response (reply None (Some ''Hi!'') None None) = Some ''Hi!''"
    by (simp add: page0_def blank_def trim_def isWhite_def reply_def)
  have p: "pending (page0\<lparr>messageInput := ''Hello''\<rparr>) = []"
          "transcript (page0\<lparr>messageInput := ''Hello''\<rparr>) = []"
    by (simp_all add: page0_def blank_def)
  show ?thesis
    using h p sendChat_success [of "page0\<lparr>messageInput := ''Hello''\<rparr>" "''Hello''"
        "reply None (Some ''Hi!'') None None" "''Hi!''"]
    by (simp del: run.simps step.simps)
qed

text \<open>
  Claim C7. A failing chat appends exactly one assistant message. When the call cannot
  complete (the promise of \<open>fetch\<close> or of \<open>json()\<close> rejects with message \<open>e\<close>) its text is
  \<open>Error: e\<close>; when the service answers with a non-success status and a body, its text is
  \<open>Error: \<close> followed by the body's \<open>detail\<close>, or by a generic text when \<open>detail\<close> is
  absent or empty; in both cases a \<open>detail\<close> \<open>d\<close> occurs verbatim in the text. The witness
  is scenario D.
\<close>

theorem sendChat_failure:
  "(k < length (pending s) \<and> pending s ! k \<in> {ChatFetch, ChatErrorJson, ChatDataJson} \<longrightarrow>
      map_option (\<lambda>s'. (transcript s', pending s'))
        (step (Settle k (Rejects e)) s)
      = Some (transcript s @ [\<lparr>mtext = ''Error: '' @ e, msender = AI\<rparr>],
              take k (pending s) @ drop (Suc k) (pending s))) \<and>
   (k < length (pending s) \<and> pending s ! k = ChatErrorJson \<longrightarrow>
      map_option (\<lambda>s'. (transcript s', pending s'))
        (step (Settle k (Body errorData)) s)
      = Some (transcript s @
                [\<lparr>mtext = ''Error: '' @ or_else (detail errorData) ''An error occurred'',
                  msender = AI\<rparr>],
              take k (pending s) @ drop (Suc k) (pending s))) \<and>
   (trim (messageInput s) = m \<and> m \<noteq> [] \<longrightarrow>
      map_option transcript
        (run [Submit, Settle (length (pending s)) (Resp False),
              Settle (length (pending s)) (Body errorData)] s)
      = Some (transcript s @
                [\<lparr>mtext = m, msender = User\<rparr>,
                 \<lparr>mtext = ''Error: '' @ or_else (detail errorData) ''An error occurred'',
                  msender = AI\<rparr>])) \<and>
   (detail errorData = Some d \<longrightarrow>
      (\<exists>pre post. ''Error: '' @ or_else (detail errorData) ''An error occurred''
                    = pre @ d @ post))"
proof -
  have contains: "\<exists>pre post. ''Error: '' @ or_else (Some d) ''An error occurred'' = pre @ d @ post"
  proof (cases "d = []")
    case True
    have "''Error: '' @ or_else (Some d) ''An error occurred''
            = [] @ [] @ (''Error: '' @ or_else (Some d) ''An error occurred'')"
      by simp
    with True show ?thesis by blast
  next
    case False
    then have "''Error: '' @ or_else (Some d) ''An error occurred'' = ''Error: '' @ d @ []"
      by simp
    then show ?thesis by blast
  qed
  show ?thesis
    using contains by (auto simp add: handler_defs)
qed

theorem sendChat_failure_witness:
  "trim (messageInput (page0\<lparr>messageInput := ''Hello''\<rparr>)) = ''Hello'' \<and>
   map_option transcript
     (run [Submit, Settle 0 (Resp False), Settle 0 (Body (reply (Some ''boom'') None None None))]
        (page0\<lparr>messageInput := ''Hello''\<rparr>))
     = Some [\<lparr>mtext = ''Hello'', msender = User\<rparr>, \<lparr>mtext = ''Error: boom'', msender = AI\<rparr>] \<and>
   map_option (\<lambda>s'. (transcript s', pending s'))
     (step (Settle 0 (Rejects ''Failed to fetch'')) (page0\<lparr>pending := [ChatFetch]\<rparr>))
     = Some ([\<lparr>mtext = ''Error: Failed to fetch'', msender = AI\<rparr>], []) \<and>
   map_option (\<lambda>s'. (transcript s', pending s'))
     (step (Settle 0 (Body (reply None None None None))) (page0\<lparr>pending := [ChatErrorJson]\<rparr>))
     = Some ([\<lparr>mtext = ''Error: An error occurred'', msender = AI\<rparr>], [])"
proof -
  have h: "trim (messageInput (page0\<lparr>messageInput := ''Hello''\<rparr>)) = ''Hello'' \<and> ''Hello'' \<noteq> []"
    by (simp add: page0_def blank_def trim_def isWhite_def)
  have p: "pending (page0\<lparr>messageInput := ''Hello''\<rparr>) = []"
          "transcript (page0\<lparr>messageInput := ''Hello''\<rparr>) = []"
          "detail (reply (Some ''boom'') None None None) = Some ''boom''"
    by (simp_all add: page0_def blank_def reply_def)
  have q: "0 < length (pending (page0\<lparr>pending := [ChatFetch]\<rparr>)) \<and>
           pending (page0\<lparr>pending := [ChatFetch]\<rparr>) ! 0 \<in> {ChatFetch, ChatErrorJson, ChatDataJson}"
          "transcript (page0\<lparr>pending := [ChatFetch]\<rparr>) = []"
          "0 < length (pending (page0\<lparr>pending := [ChatErrorJson]\<rparr>)) \<and>
           pending (page0\<lparr>pending := [ChatErrorJson]\<rparr>) ! 0 = ChatErrorJson"
          "transcript (page0\<lparr>pending := [ChatErrorJson]\<rparr>) = []"
          "detail (reply None None None None) = None"
    by (simp_all add: page0_def blank_def reply_def)
  show ?thesis
    using h p q
      sendChat_failure [of 0 "page0\<lparr>messageInput := ''Hello''\<rparr>" "''x''" 
        "reply (Some ''boom'') None None None" "''Hello''" "''boom''"]
      sendChat_failure [of 0 "page0\<lparr>pending := [ChatFetch]\<rparr>" "''Failed to fetch''"]
      sendChat_failure [of 0 "page0\<lparr>pending := [ChatErrorJson]\<rparr>" "''x''"
        "reply None None None None"]
    by (simp del: run.simps step.simps)
qed



text \<open>
  Claim C9. With a file selected the change handler issues one upload request. A success
  status with a body appends one assistant message, which contains the file's name; a
  non-success status appends one assistant message with the server's \<open>detail\<close> or the
  generic text; a rejected promise appends one with the error's message. In every case the
  file input is empty afterwards.
\<close>

theorem uploadDocument_outcomes:
  "(fileUpload s = file # rest \<longrightarrow>
      fileChange s = s\<lparr>busy := True, trace := trace s @ [Fetched (UploadReq file)],
                       pending := pending s @ [UploadFetch file]\<rparr>) \<and>
   (k < length (pending s) \<and> pending s ! k = UploadFetch file \<longrightarrow>
      step (Settle k (Resp ok)) s = Some (await (UploadJson ok file) (unpark k s))) \<and>
   (k < length (pending s) \<and> pending s ! k = UploadJson True file \<longrightarrow>
      map_option (\<lambda>s'. (transcript s', fileUpload s'))
        (step (Settle k (Body data)) s)
      = Some (transcript s @ [\<lparr>mtext = uploaded file, msender = AI\<rparr>], [])) \<and>
   (k < length (pending s) \<and> pending s ! k = UploadJson False file \<longrightarrow>
      map_option (\<lambda>s'. (transcript s', fileUpload s'))
        (step (Settle k (Body data)) s)
      = Some (transcript s @
                [\<lparr>mtext = ''Error: '' @ or_else (detail data) ''Upload failed'',
                  msender = AI\<rparr>], [])) \<and>
   (k < length (pending s) \<and> pending s ! k \<in> {UploadFetch file, UploadJson ok file} \<longrightarrow>
      map_option (\<lambda>s'. (transcript s', fileUpload s'))
        (step (Settle k (Rejects e)) s)
      = Some (transcript s @ [\<lparr>mtext = ''Error: '' @ e, msender = AI\<rparr>], [])) \<and>
   (\<exists>pre post. uploaded file = pre @ file @ post)"
proof -
  have "uploaded file = (''Successfully uploaded and indexed '' @ [CHR 0x22]) @ file
                          @ ([CHR 0x22] @ ''. You can now ask questions about it.'')"
    by (simp add: uploaded_def)
  then have names: "\<exists>pre post. uploaded file = pre @ file @ post"
    by blast
  show ?thesis
    using names by (auto simp add: handler_defs)
qed

theorem uploadDocument_outcomes_witness:
  "fileUpload (page0\<lparr>fileUpload := [''cv.pdf'']\<rparr>) = [''cv.pdf''] \<and>
   fileChange (page0\<lparr>fileUpload := [''cv.pdf'']\<rparr>)
     = page0\<lparr>fileUpload := [''cv.pdf''], busy := True,
             trace := [Fetched (UploadReq ''cv.pdf'')], pending := [UploadFetch ''cv.pdf'']\<rparr> \<and>
   map_option (\<lambda>s'. (transcript s', fileUpload s'))
     (step (Settle 0 (Body (reply None None None None)))
        (page0\<lparr>fileUpload := [''cv.pdf''], pending := [UploadJson True ''cv.pdf'']\<rparr>))
     = Some ([\<lparr>mtext = uploaded ''cv.pdf'', msender = AI\<rparr>], []) \<and>
   map_option (\<lambda>s'. (transcript s', fileUpload s'))
     (step (Settle 0 (Body (reply (Some ''Unsupported file type'') None None None)))
        (page0\<lparr>fileUpload := [''cv.pdf''], pending := [UploadJson False ''cv.pdf'']\<rparr>))
     = Some ([\<lparr>mtext = ''Error: Unsupported file type'', msender = AI\<rparr>], [])"
proof -
  have h: "fileUpload (page0\<lparr>fileUpload := [''cv.pdf'']\<rparr>) = [''cv.pdf'']"
    by simp
  have p: "transcript page0 = []" "trace page0 = []" "pending page0 = []"
    "detail (reply (Some ''Unsupported file type'') None None None) = Some ''Unsupported file type''"
    by (simp_all add: page0_def blank_def reply_def)
  show ?thesis
    using h p
      uploadDocument_outcomes [of "page0\<lparr>fileUpload := [''cv.pdf'']\<rparr>" "''cv.pdf''" "[]"]
      uploadDocument_outcomes [of
        "page0\<lparr>fileUpload := [''cv.pdf''], pending := [UploadJson True ''cv.pdf'']\<rparr>"
        "''cv.pdf''" "[]" 0 True "reply None None None None"]
      uploadDocument_outcomes [of
        "page0\<lparr>fileUpload := [''cv.pdf''], pending := [UploadJson False ''cv.pdf'']\<rparr>"
        "''cv.pdf''" "[]" 0 True "reply (Some ''Unsupported file type'') None None None"]
    by (simp del: run.simps step.simps)
qed

text \<open>
  Claim C10. When the transcription succeeds with a string that trims to the empty string,
  the handler only writes that string into the text input and switches the busy signal off:
  the transcript, the trace of requests and the parked handlers are those of the state before,
  without the transcription handler.
\<close>

theorem empty_transcription_is_noop:
  "transcription data = Some t \<and> trim t = [] \<and> k < length (pending s) \<and>
   pending s ! k = TranscribeJson \<longrightarrow>
     step (Settle k (Body data)) s
       = Some (s\<lparr>pending := take k (pending s) @ drop (Suc k) (pending s),
                 messageInput := t, busy := False\<rparr>)"
  by (auto simp add: handler_defs)

theorem empty_transcription_is_noop_witness:
  "transcription (reply None None (Some '' '') None) = Some '' '' \<and> trim '' '' = [] \<and>
   step (Settle 0 (Body (reply None None (Some '' '') None)))
     (page0\<lparr>pending := [TranscribeJson], busy := True\<rparr>)
   = Some (page0\<lparr>pending := [], messageInput := '' '', busy := False\<rparr>)"
proof -
  have h: "transcription (reply None None (Some '' '') None) = Some '' '' \<and> trim '' '' = [] \<and>
           0 < length (pending (page0\<lparr>pending := [TranscribeJson], busy := True\<rparr>)) \<and>
           pending (page0\<lparr>pending := [TranscribeJson], busy := True\<rparr>) ! 0 = TranscribeJson"
    by (simp add: reply_def trim_def isWhite_def)
  show ?thesis
    using h empty_transcription_is_noop [of "reply None None (Some '' '') None" "'' ''" 0
      "page0\<lparr>pending := [TranscribeJson], busy := True\<rparr>"]
    by (simp del: run.simps step.simps)
qed

lemma remote_snoc: "remote (ks @ [k]) = remote ks @ (if k = DeviceGrant then [] else [k])"
  by (simp add: remote_def)

lemma remote_unpark_grant:
  assumes "k < length ks" and "ks ! k = DeviceGrant"
  shows "remote (take k ks @ drop (Suc k) ks) = remote ks"
proof -
  have "ks = take k ks @ ks ! k # drop (Suc k) ks"
    using assms(1) by (rule id_take_nth_drop)
  then have "remote ks = remote (take k ks @ DeviceGrant # drop (Suc k) ks)"
    using assms(2) by simp
  then show ?thesis
    by (simp add: remote_def)
qed

lemma resume_settles:
  assumes "c \<noteq> DeviceGrant" and "resume c v s = Some s'"
  shows "\<not> busy s' \<or> (\<exists>c'. c' \<noteq> DeviceGrant \<and> s' = await c' s)"
  using assms
  by (cases c; cases v) (auto simp add: handler_defs split: option.splits if_splits)

lemma resume_grant:
  assumes "resume DeviceGrant v s = Some s'"
  shows "busy s' = busy s \<and> pending s' = pending s"
  using assms by (cases v) (auto simp add: handler_defs)

lemma gated_settle:
  assumes "gated s" and "k < length (pending s)" and "resume (pending s ! k) v (unpark k s) = Some s'"
  shows "gated s'"
proof (cases "pending s ! k = DeviceGrant")
  case True
  then have "busy s' = busy s" and "pending s' = take k (pending s) @ drop (Suc k) (pending s)"
    using assms(3) resume_grant [of v "unpark k s" s'] by (simp_all add: unpark_def)
  then show ?thesis
    using assms(1,2) True by (simp add: gated_def remote_unpark_grant)
next
  case False
  then show ?thesis
    using resume_settles [OF False assms(3)]
    by (auto simp add: gated_def await_def remote_snoc)
qed

lemma gated_step:
  assumes "gated s" and "step e s = Some s'"
  shows "gated s'"
proof (cases e)
  case (Settle k v)
  then show ?thesis
    using assms gated_settle [of s k v s'] by (simp split: if_splits)
qed (use assms in \<open>auto simp add: gated_def handler_defs remote_snoc Let_def
        split: if_splits option.splits list.splits\<close>)

lemma gated_run: "gated s \<Longrightarrow> run es s = Some s' \<Longrightarrow> gated s'"
proof (induction es arbitrary: s)
  case Nil
  then show ?case by simp
next
  case (Cons e es)
  then show ?case
    by (auto split: option.splits dest: gated_step)
qed

lemma pageLoad_idle:
  assumes "pageLoad st now rnd hm = Inr s0"
  shows "\<not> busy s0 \<and> pending s0 = []"
  using assms
  by (auto simp add: pageLoad_def blank_def addMessageToChat_def Let_def
        split: sum.splits prod.splits if_splits)

lemma resume_defined: "(resume c v s = None) = (\<not> fits c v)"
  by (cases c; cases v) simp_all

lemma settle_enabled:
  assumes "k < length (pending s)" and "fits (pending s ! k) v"
  shows "step (Settle k v) s \<noteq> None"
  using assms resume_defined [of "pending s ! k" v "unpark k s"] by simp

lemma resume_rejects:
  assumes "c \<noteq> DeviceGrant"
  shows "map_option busy (resume c (Rejects e) s) = Some False \<and>
         map_option pending (resume c (Rejects e) s) = Some (pending s)"
  using assms by (cases c) (simp_all add: handler_defs)

lemma resume_refused:
  assumes "c \<in> {TranscribeFetch, SynthFetch}"
  shows "map_option busy (resume c (Resp False) s) = Some False \<and>
         map_option pending (resume c (Resp False) s) = Some (pending s)"
  using assms by (auto simp add: handler_defs)

lemma resume_body:
  assumes "c \<in> {ChatErrorJson, ChatDataJson, SynthJson, UploadJson ok name}"
  shows "map_option busy (resume c (Body data) s) = Some False \<and>
         map_option pending (resume c (Body data) s) = Some (pending s)"
  using assms by (auto simp add: handler_defs split: option.splits)

lemma resume_transcription:
  "map_option busy (resume TranscribeJson (Body data) s) = Some False \<and>
   map_option pending (resume TranscribeJson (Body data) s)
     = Some (if trim (inputValue (transcription data)) = [] then pending s
             else pending s @ [ChatFetch])"
  by (simp add: handler_defs Let_def)

lemma pageLoad_gated:
  assumes "pageLoad st now rnd hm = Inr s0"
  shows "gated s0"
  using pageLoad_idle [OF assms] by (simp add: gated_def)

lemma settle_step:
  assumes "k < length (pending s)"
  shows "step (Settle k v) s = resume (pending s ! k) v (unpark k s)"
  using assms by simp

lemma unpark_busy:
  "busy (unpark k s) = busy s \<and>
   pending (unpark k s) = take k (pending s) @ drop (Suc k) (pending s)"
  by (simp add: unpark_def)

text \<open>
  Claim C2. The busy signal is off when the page has loaded, and in every run from the
  loaded page it is off once no handler of a remote operation is parked any more. A parked
  handler is resumed by every settlement that the promise it awaits can have, and by
  nothing else; typing, submitting, clicking the microphone and picking a file are always
  possible. For each of the four remote operations and each outcome, the settlement of a
  parked handler has a successor state, in which the handler either is parked once more,
  at the \<open>json()\<close> of a response (chat and upload for every status, transcribe and
  synthesize for a success status), or has ended with the busy signal off and is parked no
  longer: it ends so on every rejection, on a non-success status of transcribe and
  synthesize, and on every body, with or without the fields the script reads; the body of
  a transcription leaves the chained chat parked when its text is not blank. The busy
  signal is on only while a handler of a remote operation is parked: that holds after
  loading and every event keeps it.
\<close>

theorem busy_reset_when_settled:
  "(pageLoad st now rnd hm = Inr s0 \<longrightarrow> \<not> busy s0 \<and> gated s0) \<and>
   (pageLoad st now rnd hm = Inr s0 \<and> run es s0 = Some s1 \<and> remote (pending s1) = [] \<longrightarrow>
      \<not> busy s1) \<and>
   ((resume c v s = None) = (\<not> fits c v)) \<and>
   (k < length (pending s) \<and> fits (pending s ! k) v \<longrightarrow> step (Settle k v) s \<noteq> None) \<and>
   step (Type words) s \<noteq> None \<and> step Submit s \<noteq> None \<and> step MicClick s \<noteq> None \<and>
   step (PickFile fs) s \<noteq> None \<and>
   (k < length (pending s) \<and> pending s ! k \<noteq> DeviceGrant \<longrightarrow>
      map_option busy (step (Settle k (Rejects e)) s) = Some False \<and>
      map_option pending (step (Settle k (Rejects e)) s)
        = Some (take k (pending s) @ drop (Suc k) (pending s))) \<and>
   (k < length (pending s) \<and> pending s ! k \<in> {TranscribeFetch, SynthFetch} \<longrightarrow>
      map_option busy (step (Settle k (Resp False)) s) = Some False \<and>
      map_option pending (step (Settle k (Resp False)) s)
        = Some (take k (pending s) @ drop (Suc k) (pending s))) \<and>
   (k < length (pending s) \<and>
    pending s ! k \<in> {ChatErrorJson, ChatDataJson, SynthJson, UploadJson ok name} \<longrightarrow>
      map_option busy (step (Settle k (Body data)) s) = Some False \<and>
      map_option pending (step (Settle k (Body data)) s)
        = Some (take k (pending s) @ drop (Suc k) (pending s))) \<and>
   (k < length (pending s) \<and> pending s ! k = TranscribeJson \<longrightarrow>
      map_option busy (step (Settle k (Body data)) s) = Some False \<and>
      map_option pending (step (Settle k (Body data)) s)
        = Some (take k (pending s) @ drop (Suc k) (pending s) @
                (if trim (inputValue (transcription data)) = [] then [] else [ChatFetch]))) \<and>
   (k < length (pending s) \<and> pending s ! k = ChatFetch \<longrightarrow>
      map_option pending (step (Settle k (Resp ok)) s)
        = Some (take k (pending s) @ drop (Suc k) (pending s) @
                [if ok then ChatDataJson else ChatErrorJson])) \<and>
   (k < length (pending s) \<and> pending s ! k = UploadFetch name \<longrightarrow>
      map_option pending (step (Settle k (Resp ok)) s)
        = Some (take k (pending s) @ drop (Suc k) (pending s) @ [UploadJson ok name])) \<and>
   (k < length (pending s) \<and> pending s ! k = TranscribeFetch \<longrightarrow>
      map_option pending (step (Settle k (Resp True)) s)
        = Some (take k (pending s) @ drop (Suc k) (pending s) @ [TranscribeJson])) \<and>
   (k < length (pending s) \<and> pending s ! k = SynthFetch \<longrightarrow>
      map_option pending (step (Settle k (Resp True)) s)
        = Some (take k (pending s) @ drop (Suc k) (pending s) @ [SynthJson])) \<and>
   (gated s \<and> step ev s = Some s' \<longrightarrow> gated s')"
proof -
  have a: "pageLoad st now rnd hm = Inr s0 \<longrightarrow> \<not> busy s0 \<and> gated s0"
    using pageLoad_idle [of st now rnd hm s0] pageLoad_gated [of st now rnd hm s0] by blast
  have b: "(resume c v s = None) = (\<not> fits c v)"
    by (rule resume_defined)
  have f: "k < length (pending s) \<and> fits (pending s ! k) v \<longrightarrow> step (Settle k v) s \<noteq> None"
    using settle_enabled [of k s v] by blast
  have c1: "k < length (pending s) \<and> pending s ! k \<noteq> DeviceGrant \<longrightarrow>
      map_option busy (step (Settle k (Rejects e)) s) = Some False \<and>
      map_option pending (step (Settle k (Rejects e)) s)
        = Some (take k (pending s) @ drop (Suc k) (pending s))"
    using settle_step [of k s "Rejects e"] resume_rejects [of "pending s ! k" e "unpark k s"]
      unpark_busy [of k s]
    by simp
  have d: "k < length (pending s) \<and> pending s ! k \<in> {TranscribeFetch, SynthFetch} \<longrightarrow>
      map_option busy (step (Settle k (Resp False)) s) = Some False \<and>
      map_option pending (step (Settle k (Resp False)) s)
        = Some (take k (pending s) @ drop (Suc k) (pending s))"
    using settle_step [of k s "Resp False"] resume_refused [of "pending s ! k" "unpark k s"]
      unpark_busy [of k s]
    by simp
  have c2: "k < length (pending s) \<and>
    pending s ! k \<in> {ChatErrorJson, ChatDataJson, SynthJson, UploadJson ok name} \<longrightarrow>
      map_option busy (step (Settle k (Body data)) s) = Some False \<and>
      map_option pending (step (Settle k (Body data)) s)
        = Some (take k (pending s) @ drop (Suc k) (pending s))"
    using settle_step [of k s "Body data"]
      resume_body [of "pending s ! k" ok name data "unpark k s"] unpark_busy [of k s]
    by simp
  have c3: "k < length (pending s) \<and> pending s ! k = TranscribeJson \<longrightarrow>
      map_option busy (step (Settle k (Body data)) s) = Some False \<and>
      map_option pending (step (Settle k (Body data)) s)
        = Some (take k (pending s) @ drop (Suc k) (pending s) @
                (if trim (inputValue (transcription data)) = [] then [] else [ChatFetch]))"
    using settle_step [of k s "Body data"] resume_transcription [of data "unpark k s"]
      unpark_busy [of k s]
    by simp
  have e: "(k < length (pending s) \<and> pending s ! k = ChatFetch \<longrightarrow>
      map_option pending (step (Settle k (Resp ok)) s)
        = Some (take k (pending s) @ drop (Suc k) (pending s) @
                [if ok then ChatDataJson else ChatErrorJson])) \<and>
   (k < length (pending s) \<and> pending s ! k = UploadFetch name \<longrightarrow>
      map_option pending (step (Settle k (Resp ok)) s)
        = Some (take k (pending s) @ drop (Suc k) (pending s) @ [UploadJson ok name])) \<and>
   (k < length (pending s) \<and> pending s ! k = TranscribeFetch \<longrightarrow>
      map_option pending (step (Settle k (Resp True)) s)
        = Some (take k (pending s) @ drop (Suc k) (pending s) @ [TranscribeJson])) \<and>
   (k < length (pending s) \<and> pending s ! k = SynthFetch \<longrightarrow>
      map_option pending (step (Settle k (Resp True)) s)
        = Some (take k (pending s) @ drop (Suc k) (pending s) @ [SynthJson]))"
    by (simp add: await_def unpark_def)
  have g: "gated s \<and> step ev s = Some s' \<longrightarrow> gated s'"
    using gated_step [of s ev s'] by blast
  have u: "step (Type words) s \<noteq> None \<and> step Submit s \<noteq> None \<and> step MicClick s \<noteq> None \<and>
           step (PickFile fs) s \<noteq> None"
    by simp
  have h: "pageLoad st now rnd hm = Inr s0 \<and> run es s0 = Some s1 \<and> remote (pending s1) = [] \<longrightarrow>
      \<not> busy s1"
  proof
    assume r: "pageLoad st now rnd hm = Inr s0 \<and> run es s0 = Some s1 \<and> remote (pending s1) = []"
    then have "gated s0"
      using pageLoad_gated [of st now rnd hm s0] by blast
    then have "gated s1"
      using r gated_run by blast
    then show "\<not> busy s1"
      using r by (simp add: gated_def)
  qed
  show ?thesis
    using a b f u c1 d c2 c3 e g h by blast
qed

theorem busy_reset_when_settled_witness:
  "pageLoad \<lparr>item = Some ''sess_1_abc'', readable = True, writable = True\<rparr> ''1'' ''x'' True
     = Inr page0 \<and>
   \<not> busy page0 \<and>
   map_option busy (step (Settle 0 (Rejects ''Failed to fetch'')) (page0\<lparr>busy := True, pending := [TranscribeFetch]\<rparr>))
     = Some False \<and>
   map_option busy (step (Settle 0 (Resp False)) (page0\<lparr>busy := True, pending := [SynthFetch]\<rparr>))
     = Some False \<and>
   map_option busy (step (Settle 0 (Body (reply None None None None))) (page0\<lparr>busy := True, pending := [ChatDataJson]\<rparr>))
     = Some False \<and>
   map_option busy (step (Settle 0 (Body (reply None None None None))) (page0\<lparr>busy := True, pending := [SynthJson]\<rparr>))
     = Some False \<and>
   map_option busy (step (Settle 0 (Body (reply None None None None))) (page0\<lparr>busy := True, pending := [TranscribeJson]\<rparr>))
     = Some False \<and>
   map_option pending (step (Settle 0 (Resp True)) (page0\<lparr>busy := True, pending := [UploadFetch ''cv.pdf'']\<rparr>))
     = Some [UploadJson True ''cv.pdf''] \<and>
   (\<exists>s1. run [Type ''Hello'', Submit, PickFile [''cv.pdf''], Settle 0 (Resp True),
              Settle 1 (Body (reply None (Some ''Hi!'') None None)), SpeakerClick 1, MicClick,
              Settle 2 Stream, MicClick, DataAvailable 0 ''abc'', Stopped 0,
              Settle 0 (Resp False), Settle 1 (Resp False), Settle 0 (Resp True),
              Settle 0 (Body (reply (Some ''Unsupported file type'') None None None)),
              Settle 0 (Body (reply None None None (Some ''/audio/a.wav'')))]
            page0 = Some s1 \<and> remote (pending s1) = [] \<and> \<not> busy s1)"
proof -
  have l: "pageLoad \<lparr>item = Some ''sess_1_abc'', readable = True, writable = True\<rparr> ''1'' ''x'' True
             = Inr page0"
    by (simp add: pageLoad_def getOrCreate_def createSession_def getItem_def falsy_def page0_def blank_def)
  have "\<exists>s1. run [Type ''Hello'', Submit, PickFile [''cv.pdf''], Settle 0 (Resp True),
              Settle 1 (Body (reply None (Some ''Hi!'') None None)), SpeakerClick 1, MicClick,
              Settle 2 Stream, MicClick, DataAvailable 0 ''abc'', Stopped 0,
              Settle 0 (Resp False), Settle 1 (Resp False), Settle 0 (Resp True),
              Settle 0 (Body (reply (Some ''Unsupported file type'') None None None)),
              Settle 0 (Body (reply None None None (Some ''/audio/a.wav'')))]
            page0 = Some s1 \<and> remote (pending s1) = []"
    by (simp add: page0_def blank_def handler_defs trim_def isWhite_def remote_def Let_def
          recorderState_def reply_def)
  then obtain s1 where r: "run [Type ''Hello'', Submit, PickFile [''cv.pdf''], Settle 0 (Resp True),
              Settle 1 (Body (reply None (Some ''Hi!'') None None)), SpeakerClick 1, MicClick,
              Settle 2 Stream, MicClick, DataAvailable 0 ''abc'', Stopped 0,
              Settle 0 (Resp False), Settle 1 (Resp False), Settle 0 (Resp True),
              Settle 0 (Body (reply (Some ''Unsupported file type'') None None None)),
              Settle 0 (Body (reply None None None (Some ''/audio/a.wav'')))]
            page0 = Some s1" "remote (pending s1) = []"
    by blast
  note t = busy_reset_when_settled [where st = "\<lparr>item = Some ''sess_1_abc'', readable = True, writable = True\<rparr>"
        and now = "''1''"
        and rnd = "''x''"
        and hm = True
        and ?s0.0 = page0
        and ?s1.0 = s1
        and c = ChatFetch
        and v = Stream
        and s = page0
        and k = 0
        and e = "''x''"
        and ok = True
        and name = "''x''"
        and data = "reply None None None None"
        and ev = Submit
        and words = "''x''"
        and fs = "[]"
        and s' = page0]
  have "\<not> busy page0"
    using l t [THEN conjunct1] by blast
  moreover have "\<not> busy s1"
    using l r t [THEN conjunct2, THEN conjunct1] by blast
  moreover have
    "map_option busy (step (Settle 0 (Rejects ''Failed to fetch'')) (page0\<lparr>busy := True, pending := [TranscribeFetch]\<rparr>))
       = Some False"
    using busy_reset_when_settled [where st = "\<lparr>item = Some ''sess_1_abc'', readable = True, writable = True\<rparr>"
        and now = "''1''"
        and rnd = "''x''"
        and hm = True
        and ?s0.0 = page0
        and ?s1.0 = page0
        and es = "[]"
        and c = ChatFetch
        and v = Stream
        and s = "page0\<lparr>busy := True, pending := [TranscribeFetch]\<rparr>"
        and k = 0
        and e = "''Failed to fetch''"
        and ok = True
        and name = "''x''"
        and data = "reply None None None None"
        and ev = Submit
        and words = "''x''"
        and fs = "[]"
        and s' = page0]
    by simp
  moreover have
    "map_option busy (step (Settle 0 (Resp False)) (page0\<lparr>busy := True, pending := [SynthFetch]\<rparr>))
       = Some False"
    using busy_reset_when_settled [where st = "\<lparr>item = Some ''sess_1_abc'', readable = True, writable = True\<rparr>"
        and now = "''1''"
        and rnd = "''x''"
        and hm = True
        and ?s0.0 = page0
        and ?s1.0 = page0
        and es = "[]"
        and c = ChatFetch
        and v = Stream
        and s = "page0\<lparr>busy := True, pending := [SynthFetch]\<rparr>"
        and k = 0
        and e = "''x''"
        and ok = True
        and name = "''x''"
        and data = "reply None None None None"
        and ev = Submit
        and words = "''x''"
        and fs = "[]"
        and s' = page0]
    by simp
  moreover have
    "map_option busy (step (Settle 0 (Body (reply None None None None))) (page0\<lparr>busy := True, pending := [ChatDataJson]\<rparr>))
       = Some False"
    using busy_reset_when_settled [where st = "\<lparr>item = Some ''sess_1_abc'', readable = True, writable = True\<rparr>"
        and now = "''1''"
        and rnd = "''x''"
        and hm = True
        and ?s0.0 = page0
        and ?s1.0 = page0
        and es = "[]"
        and c = ChatFetch
        and v = Stream
        and s = "page0\<lparr>busy := True, pending := [ChatDataJson]\<rparr>"
        and k = 0
        and e = "''x''"
        and ok = True
        and name = "''x''"
        and data = "reply None None None None"
        and ev = Submit
        and words = "''x''"
        and fs = "[]"
        and s' = page0]
    by simp
  moreover have
    "map_option busy (step (Settle 0 (Body (reply None None None None))) (page0\<lparr>busy := True, pending := [SynthJson]\<rparr>))
       = Some False"
    using busy_reset_when_settled [where st = "\<lparr>item = Some ''sess_1_abc'', readable = True, writable = True\<rparr>"
        and now = "''1''"
        and rnd = "''x''"
        and hm = True
        and ?s0.0 = page0
        and ?s1.0 = page0
        and es = "[]"
        and c = ChatFetch
        and v = Stream
        and s = "page0\<lparr>busy := True, pending := [SynthJson]\<rparr>"
        and k = 0
        and e = "''x''"
        and ok = True
        and name = "''x''"
        and data = "reply None None None None"
        and ev = Submit
        and words = "''x''"
        and fs = "[]"
        and s' = page0]
    by simp
  moreover have
    "map_option busy (step (Settle 0 (Body (reply None None None None))) (page0\<lparr>busy := True, pending := [TranscribeJson]\<rparr>))
       = Some False"
    using busy_reset_when_settled [where st = "\<lparr>item = Some ''sess_1_abc'', readable = True, writable = True\<rparr>"
        and now = "''1''"
        and rnd = "''x''"
        and hm = True
        and ?s0.0 = page0
        and ?s1.0 = page0
        and es = "[]"
        and c = ChatFetch
        and v = Stream
        and s = "page0\<lparr>busy := True, pending := [TranscribeJson]\<rparr>"
        and k = 0
        and e = "''x''"
        and ok = True
        and name = "''x''"
        and data = "reply None None None None"
        and ev = Submit
        and words = "''x''"
        and fs = "[]"
        and s' = page0]
    by simp
  moreover have
    "map_option pending (step (Settle 0 (Resp True)) (page0\<lparr>busy := True, pending := [UploadFetch ''cv.pdf'']\<rparr>))
       = Some [UploadJson True ''cv.pdf'']"
    using busy_reset_when_settled [where st = "\<lparr>item = Some ''sess_1_abc'', readable = True, writable = True\<rparr>"
        and now = "''1''"
        and rnd = "''x''"
        and hm = True
        and ?s0.0 = page0
        and ?s1.0 = page0
        and es = "[]"
        and c = ChatFetch
        and v = Stream
        and s = "page0\<lparr>busy := True, pending := [UploadFetch ''cv.pdf'']\<rparr>"
        and k = 0
        and e = "''x''"
        and ok = True
        and name = "''cv.pdf''"
        and data = "reply None None None None"
        and ev = Submit
        and words = "''x''"
        and fs = "[]"
        and s' = page0]
    by simp
  ultimately show ?thesis
    using l r by blast
qed

text \<open>
  What the transcription handler does with a transcription that trims to a non-empty \<open>m\<close>,
  in any state: the dispatched submit handler appends the user message, raises the busy
  signal and issues the chat request; the \<open>finally\<close> block of the transcription handler then
  switches the signal off, while the chat handler is parked. A chat handler that is resumed
  parks again or ends with the busy signal off.
\<close>

lemma transcribed_clears_busy:
  "(transcription data = Some t \<and> trim t = m \<and> m \<noteq> [] \<and> k < length (pending s) \<and>
    pending s ! k = TranscribeJson \<longrightarrow>
      map_option (\<lambda>s'. (busy s', pending s', trace s'))
        (step (Settle k (Body data)) s)
      = Some (False, take k (pending s) @ drop (Suc k) (pending s) @ [ChatFetch],
              trace s @ [Appended \<lparr>mtext = m, msender = User\<rparr>,
                         Fetched (ChatReq m (sessionId s))])) \<and>
   (c \<in> {ChatFetch, ChatErrorJson, ChatDataJson} \<and> resume c v s = Some s' \<longrightarrow>
      \<not> busy s' \<or> s' = await ChatErrorJson s \<or> s' = await ChatDataJson s)"
proof (intro conjI impI)
  assume "transcription data = Some t \<and> trim t = m \<and> m \<noteq> [] \<and> k < length (pending s) \<and>
    pending s ! k = TranscribeJson"
  then show "map_option (\<lambda>s'. (busy s', pending s', trace s'))
        (step (Settle k (Body data)) s)
      = Some (False, take k (pending s) @ drop (Suc k) (pending s) @ [ChatFetch],
              trace s @ [Appended \<lparr>mtext = m, msender = User\<rparr>,
                         Fetched (ChatReq m (sessionId s))])"
    by (auto simp add: handler_defs)
next
  assume "c \<in> {ChatFetch, ChatErrorJson, ChatDataJson} \<and> resume c v s = Some s'"
  then show "\<not> busy s' \<or> s' = await ChatErrorJson s \<or> s' = await ChatDataJson s"
    by (cases v) (auto simp add: handler_defs split: option.splits)
qed

text \<open>
  Claim C1. The script does not keep the busy signal up over the chained chat. Record, stop
  with one fragment, let the transcription succeed with "hi": right after the transcribe
  operation has settled, the chained chat request is outstanding (its handler is the only
  one parked) and the busy signal is off, although line 104 has just raised it for that
  request.
\<close>

theorem chained_chat_without_busy:
  "map_option busy
     (run [MicClick, Settle 0 Stream, MicClick, DataAvailable 0 ''abc'', Stopped 0,
           Settle 0 (Resp True), Settle 0 (Body (reply None None (Some ''hi'') None))] page0)
     = Some False \<and>
   map_option pending
     (run [MicClick, Settle 0 Stream, MicClick, DataAvailable 0 ''abc'', Stopped 0,
           Settle 0 (Resp True), Settle 0 (Body (reply None None (Some ''hi'') None))] page0)
     = Some [ChatFetch]"
  by (simp add: page0_def blank_def handler_defs recorderState_def reply_def trim_def isWhite_def Let_def)

lemma tidy_frame:
  assumes "tidy s" and "recorders s' = recorders s" and "mediaRecorder s' = mediaRecorder s"
    and "isRecording s' = isRecording s" and "grants s' \<le> grants s"
  shows "tidy s'"
  using assms by (auto simp add: tidy_def)

lemma grants_unpark: "grants (unpark k s) \<le> grants s"
proof (cases "k < length (pending s)")
  case True
  then have "pending s = take k (pending s) @ pending s ! k # drop (Suc k) (pending s)"
    by (rule id_take_nth_drop)
  then have "grants s = length (filter (\<lambda>k. k = DeviceGrant)
                 (take k (pending s) @ pending s ! k # drop (Suc k) (pending s)))"
    by (simp add: grants_def)
  then show ?thesis
    by (simp add: grants_def unpark_def)
next
  case False
  then show ?thesis
    by (simp add: grants_def unpark_def)
qed

lemma grants_unpark_grant:
  assumes "k < length (pending s)" and "pending s ! k = DeviceGrant"
  shows "Suc (grants (unpark k s)) = grants s"
proof -
  have "pending s = take k (pending s) @ pending s ! k # drop (Suc k) (pending s)"
    using assms(1) by (rule id_take_nth_drop)
  then have "grants s = length (filter (\<lambda>k. k = DeviceGrant)
                 (take k (pending s) @ DeviceGrant # drop (Suc k) (pending s)))"
    using assms(2) by (simp add: grants_def)
  then show ?thesis
    by (simp add: grants_def unpark_def)
qed

lemma resume_frame:
  assumes "c \<noteq> DeviceGrant" and "resume c v s = Some s'"
  shows "recorders s' = recorders s \<and> mediaRecorder s' = mediaRecorder s \<and>
         isRecording s' = isRecording s \<and> grants s' = grants s"
  using assms
  by (cases c; cases v)
     (auto simp add: handler_defs grants_def Let_def split: option.splits if_splits)

lemma handler_frame:
  "recorders (submit s) = recorders s \<and> mediaRecorder (submit s) = mediaRecorder s \<and>
   isRecording (submit s) = isRecording s \<and> grants (submit s) = grants s \<and>
   recorders (fileChange s) = recorders s \<and> mediaRecorder (fileChange s) = mediaRecorder s \<and>
   isRecording (fileChange s) = isRecording s \<and> grants (fileChange s) = grants s \<and>
   recorders (speakText t s) = recorders s \<and> mediaRecorder (speakText t s) = mediaRecorder s \<and>
   isRecording (speakText t s) = isRecording s \<and> grants (speakText t s) = grants s \<and>
   recorders (sendAudioForTranscription s) = recorders s \<and>
   mediaRecorder (sendAudioForTranscription s) = mediaRecorder s \<and>
   isRecording (sendAudioForTranscription s) = isRecording s \<and>
   grants (sendAudioForTranscription s) = grants s"
  by (simp add: handler_defs grants_def Let_def split: list.splits)

lemma unpark_frame:
  "recorders (unpark k s) = recorders s \<and> mediaRecorder (unpark k s) = mediaRecorder s \<and>
   isRecording (unpark k s) = isRecording s"
  by (simp add: unpark_def)

lemma grants_zero: "(DeviceGrant \<notin> set (pending s)) = (grants s = 0)"
  by (auto simp add: grants_def filter_empty_conv)

lemma tidy_settle:
  assumes "tidy s" and "k < length (pending s)"
    and "resume (pending s ! k) v (unpark k s) = Some s'"
  shows "tidy s'"
proof (cases "pending s ! k = DeviceGrant")
  case False
  have "grants s' \<le> grants s"
    using resume_frame [OF False assms(3)] grants_unpark [of k s] by simp
  then show ?thesis
    using resume_frame [OF False assms(3)] unpark_frame [of k s] assms(1)
    by (intro tidy_frame [of s s']) simp_all
next
  case True
  have g: "Suc (grants (unpark k s)) = grants s"
    using assms(2) True by (rule grants_unpark_grant)
  then have none: "Recording \<notin> set (recorders s)" and zero: "grants (unpark k s) = 0"
    using assms(1) by (auto simp add: tidy_def)
  show ?thesis
  proof (cases v)
    case (Rejects m)
    then have "s' = denied (unpark k s)"
      using assms(3) True by simp
    then show ?thesis
      using assms(1) g by (intro tidy_frame [of s s'])
        (simp_all add: denied_def alert_def unpark_def grants_def)
  next
    case Stream
    then have s': "s' = granted (unpark k s)"
      using assms(3) True by simp
    have "grants s' = 0"
      using zero s' by (simp add: granted_def grants_def)
    moreover have "\<forall>i < length (recorders s'). recorders s' ! i = Recording \<longrightarrow>
                     mediaRecorder s' = Some i \<and> isRecording s'"
      using none s' by (auto simp add: granted_def unpark_def nth_append in_set_conv_nth)
    ultimately show ?thesis
      by (simp add: tidy_def)
  next
    case (Resp ok)
    then show ?thesis using assms(3) True by simp
  next
    case (Body data)
    then show ?thesis using assms(3) True by simp
  qed
qed

lemma tidy_click:
  assumes "tidy s" and "DeviceGrant \<notin> set (pending s)"
  shows "tidy (micClick s)"
proof -
  have single: "mediaRecorder s = Some j \<and> isRecording s"
    if "j < length (recorders s)" and "recorders s ! j = Recording" for j
    using assms(1) that by (simp add: tidy_def)
  have few: "grants s \<le> 1"
    using assms(1) by (simp add: tidy_def)
  show ?thesis
  proof (cases "isRecording s")
    case True
    show ?thesis
    proof (cases "mediaRecorder s")
      case None
      then have "micClick s = s"
        using True by (simp add: micClick_def stopRecording_def)
      then show ?thesis
        using assms(1) by simp
    next
      case (Some i)
      show ?thesis
      proof (cases "recorderState s i = Recording")
        case False
        then have "micClick s = s"
          using True Some by (simp add: micClick_def stopRecording_def)
        then show ?thesis
          using assms(1) by simp
      next
        case rec: True
        have m: "micClick s = s\<lparr>recorders := (recorders s)[i := Stopping],
                                   isRecording := False, micRecording := False\<rparr>"
          using True Some rec by (simp add: micClick_def stopRecording_def)
        have a: "(recorders s)[i := Stopping] ! j \<noteq> Recording"
          if "j < length (recorders s)" for j
        proof (cases "j = i")
          case True
          then show ?thesis
            using that by simp
        next
          case False
          then have "recorders s ! j \<noteq> Recording"
            using single [OF that] Some by auto
          then show ?thesis
            using False by simp
        qed
        have b: "Recording \<notin> set ((recorders s)[i := Stopping])"
        proof
          assume "Recording \<in> set ((recorders s)[i := Stopping])"
          then obtain j where "j < length (recorders s)"
            and "(recorders s)[i := Stopping] ! j = Recording"
            by (auto simp add: in_set_conv_nth)
          then show False
            using a by blast
        qed
        show ?thesis
          unfolding m using a b few by (simp add: tidy_def grants_def)
      qed
    qed
  next
    case False
    have none: "Recording \<notin> set (recorders s)"
    proof
      assume "Recording \<in> set (recorders s)"
      then obtain j where "j < length (recorders s)" and "recorders s ! j = Recording"
        by (auto simp add: in_set_conv_nth)
      then show False
        using single False by blast
    qed
    then have free: "recorders s ! j \<noteq> Recording" if "j < length (recorders s)" for j
      using that nth_mem by metis
    have zero: "grants s = 0"
      using assms(2) by (simp add: grants_zero)
    have m: "micClick s = startRecording s"
      using False by (simp add: micClick_def)
    show ?thesis
    proof (cases "hasMedia s")
      case True
      then have "startRecording s
                   = s\<lparr>trace := trace s @ [AskedDevice], pending := pending s @ [DeviceGrant]\<rparr>"
        by (simp add: startRecording_def await_def)
      then show ?thesis
        unfolding m using none free zero by (simp add: tidy_def grants_def)
    next
      case nomedia: False
      then have "startRecording s
                   = s\<lparr>trace := trace s @ [Alerted ''Your browser does not support audio recording.'']\<rparr>"
        by (simp add: startRecording_def alert_def)
      then show ?thesis
        unfolding m using none free zero by (simp add: tidy_def grants_def)
    qed
  qed
qed

lemma tidy_retire:
  assumes "tidy s" and "x \<noteq> Recording"
  shows "tidy (s\<lparr>recorders := (recorders s)[i := x]\<rparr>)"
proof -
  have old: "recorders s ! j = Recording"
    if "j < length (recorders s)" and "(recorders s)[i := x] ! j = Recording" for j
  proof (cases "j = i")
    case True
    then show ?thesis
      using that assms(2) by simp
  next
    case False
    then show ?thesis
      using that by simp
  qed
  have "set ((recorders s)[i := x]) \<subseteq> insert x (set (recorders s))"
    by (rule set_update_subset_insert)
  then have gone: "Recording \<notin> set ((recorders s)[i := x])" if "Recording \<notin> set (recorders s)"
    using that assms(2) by auto
  have j1: "\<forall>j < length (recorders s). recorders s ! j = Recording \<longrightarrow>
              mediaRecorder s = Some j \<and> isRecording s"
    and j2: "0 < grants s \<longrightarrow> Recording \<notin> set (recorders s)" and j3: "grants s \<le> 1"
    using assms(1) by (simp_all add: tidy_def)
  have "\<forall>j < length (recorders s). (recorders s)[i := x] ! j = Recording \<longrightarrow>
              mediaRecorder s = Some j \<and> isRecording s"
    using j1 old by blast
  then show ?thesis
    using j2 j3 gone by (simp add: tidy_def grants_def)
qed

lemma tidy_step:
  assumes "tidy s" and "e = MicClick \<longrightarrow> DeviceGrant \<notin> set (pending s)"
    and "step e s = Some s'"
  shows "tidy s'"
proof (cases e)
  case (Settle k v)
  then show ?thesis
    using assms tidy_settle [of s k v s'] by (simp split: if_splits)
next
  case MicClick
  then show ?thesis
    using assms tidy_click [of s] by simp
next
  case (Stopped i)
  then have s': "s' = sendAudioForTranscription (s\<lparr>recorders := (recorders s)[i := Finished]\<rparr>)"
    using assms(3) by (simp split: if_splits)
  have "tidy (s\<lparr>recorders := (recorders s)[i := Finished]\<rparr>)"
    using assms(1) by (rule tidy_retire) simp
  then show ?thesis
    unfolding s'
    using handler_frame [of "s\<lparr>recorders := (recorders s)[i := Finished]\<rparr>"]
    by (intro tidy_frame [of "s\<lparr>recorders := (recorders s)[i := Finished]\<rparr>"
          "sendAudioForTranscription (s\<lparr>recorders := (recorders s)[i := Finished]\<rparr>)"]) simp_all
next
  case (Type t)
  then have "s' = s\<lparr>messageInput := t\<rparr>"
    using assms(3) by simp
  then show ?thesis
    using assms(1) by (intro tidy_frame [of s s']) (simp_all add: grants_def)
next
  case Submit
  then have "s' = submit s"
    using assms(3) by simp
  then show ?thesis
    using assms(1) handler_frame [of s] by (intro tidy_frame [of s s']) simp_all
next
  case (PickFile fs)
  then have "s' = fileChange (s\<lparr>fileUpload := fs\<rparr>)"
    using assms(3) by simp
  then show ?thesis
    using assms(1) handler_frame [of "s\<lparr>fileUpload := fs\<rparr>"]
    by (intro tidy_frame [of s s']) (simp_all add: grants_def)
next
  case (SpeakerClick n)
  then have "s' = speakText (mtext (transcript s ! n)) s"
    using assms(3) by (simp split: if_splits)
  then show ?thesis
    using assms(1) handler_frame [of s] by (intro tidy_frame [of s s']) simp_all
next
  case (DataAvailable i b)
  then have "s' = s\<lparr>audioChunks := audioChunks s @ [b]\<rparr>"
    using assms(3) by (simp split: if_splits)
  then show ?thesis
    using assms(1) by (intro tidy_frame [of s s']) (simp_all add: grants_def)
qed

lemma tidy_run: "tidy s \<Longrightarrow> calm es s \<Longrightarrow> run es s = Some s' \<Longrightarrow> tidy s'"
proof (induction es arbitrary: s)
  case Nil
  then show ?case by simp
next
  case (Cons e es)
  from Cons.prems(3) obtain s1 where s1: "step e s = Some s1" "run es s1 = Some s'"
    by (auto split: option.splits)
  have "tidy s1"
    using Cons.prems(1,2) s1(1) by (intro tidy_step [of s e s1]) simp_all
  moreover have "calm es s1"
    using Cons.prems(2) s1(1) by simp
  ultimately show ?case
    using Cons.IH s1(2) by blast
qed

lemma tidy_capturing:
  assumes "tidy s"
  shows "capturing s \<le> 1"
proof -
  have "{i. i < length (recorders s) \<and> recorders s ! i = Recording}
          \<subseteq> (case mediaRecorder s of None \<Rightarrow> {} | Some i \<Rightarrow> {i})"
    using assms by (auto simp add: tidy_def split: option.splits)
  then have "card {i. i < length (recorders s) \<and> recorders s ! i = Recording}
          \<le> card (case mediaRecorder s of None \<Rightarrow> {} | Some i \<Rightarrow> {i})"
    by (intro card_mono) (auto split: option.splits)
  also have "\<dots> \<le> 1"
    by (simp split: option.splits)
  finally show ?thesis
    by (simp add: capturing_def length_filter_conv_card)
qed

lemma pageLoad_tidy:
  assumes "pageLoad st now rnd hm = Inr s0"
  shows "tidy s0"
  using assms
  by (auto simp add: pageLoad_def blank_def addMessageToChat_def Let_def tidy_def grants_def
        split: sum.splits prod.splits if_splits)


text \<open>
  Claim C3, as amended. In every run from the loaded page in which the microphone button is
  not clicked while a request for the capture device is still waiting, at most one recorder
  is capturing. It is the toggle of the click handler that ensures this: a click while
  \<open>isRecording\<close> is set stops and requests nothing, whereas \<open>startRecording\<close> has no guard
  of its own and requests the device even when called while a recording is going on.
  \<open>stopRecording\<close> without a recorder, or with a recorder that is not capturing, leaves
  the state as it is.
\<close>

theorem single_capture_by_toggle:
  "(pageLoad st now rnd hm = Inr s0 \<and> calm es s0 \<and> run es s0 = Some s1 \<longrightarrow> capturing s1 \<le> 1) \<and>
   (isRecording s \<longrightarrow>
      micClick s = stopRecording s \<and> pending (stopRecording s) = pending s \<and>
      trace (stopRecording s) = trace s) \<and>
   (hasMedia s \<and> isRecording s \<longrightarrow>
      pending (startRecording s) = pending s @ [DeviceGrant] \<and>
      trace (startRecording s) = trace s @ [AskedDevice]) \<and>
   ((case mediaRecorder s of None \<Rightarrow> True | Some i \<Rightarrow> recorderState s i \<noteq> Recording) \<longrightarrow>
      stopRecording s = s)"
proof (intro conjI impI)
  assume a: "pageLoad st now rnd hm = Inr s0 \<and> calm es s0 \<and> run es s0 = Some s1"
  then have "tidy s0"
    using pageLoad_tidy [of st now rnd hm s0] by blast
  then have "tidy s1"
    using a tidy_run by blast
  then show "capturing s1 \<le> 1"
    by (rule tidy_capturing)
next
  assume "isRecording s"
  then show "micClick s = stopRecording s"
    by (simp add: micClick_def)
next
  show "pending (stopRecording s) = pending s"
    by (simp add: stopRecording_def split: option.splits)
next
  show "trace (stopRecording s) = trace s"
    by (simp add: stopRecording_def split: option.splits)
next
  assume "hasMedia s \<and> isRecording s"
  then show "pending (startRecording s) = pending s @ [DeviceGrant]"
    by (simp add: startRecording_def await_def)
next
  assume "hasMedia s \<and> isRecording s"
  then show "trace (startRecording s) = trace s @ [AskedDevice]"
    by (simp add: startRecording_def await_def)
next
  assume "case mediaRecorder s of None \<Rightarrow> True | Some i \<Rightarrow> recorderState s i \<noteq> Recording"
  then show "stopRecording s = s"
    by (simp add: stopRecording_def split: option.splits)
qed

theorem single_capture_by_toggle_witness:
  "pageLoad \<lparr>item = Some ''sess_1_abc'', readable = True, writable = True\<rparr> ''1'' ''x'' True
     = Inr page0 \<and>
   calm [MicClick, Settle 0 Stream, MicClick, DataAvailable 0 ''abc'', Stopped 0, MicClick,
         Settle 1 Stream] page0 \<and>
   (\<exists>s1. run [MicClick, Settle 0 Stream, MicClick, DataAvailable 0 ''abc'', Stopped 0, MicClick,
              Settle 1 Stream] page0 = Some s1 \<and>
         recorders s1 = [Finished, Recording] \<and> capturing s1 \<le> 1) \<and>
   stopRecording page0 = page0 \<and>
   hasMedia (granted page0) \<and> isRecording (granted page0) \<and>
   micClick (granted page0) = stopRecording (granted page0) \<and>
   pending (stopRecording (granted page0)) = [] \<and>
   pending (startRecording (granted page0)) = [DeviceGrant]"
proof -
  have l: "pageLoad \<lparr>item = Some ''sess_1_abc'', readable = True, writable = True\<rparr> ''1'' ''x'' True
             = Inr page0"
    by (simp add: pageLoad_def getOrCreate_def createSession_def getItem_def falsy_def page0_def blank_def)
  have c: "calm [MicClick, Settle 0 Stream, MicClick, DataAvailable 0 ''abc'', Stopped 0, MicClick,
         Settle 1 Stream] page0"
    by (simp add: page0_def blank_def handler_defs recorderState_def)
  have "\<exists>s1. run [MicClick, Settle 0 Stream, MicClick, DataAvailable 0 ''abc'', Stopped 0, MicClick,
              Settle 1 Stream] page0 = Some s1 \<and> recorders s1 = [Finished, Recording]"
    by (simp add: page0_def blank_def handler_defs recorderState_def)
  then obtain s1 where r: "run [MicClick, Settle 0 Stream, MicClick, DataAvailable 0 ''abc'',
              Stopped 0, MicClick, Settle 1 Stream] page0 = Some s1"
      "recorders s1 = [Finished, Recording]"
    by blast
  have i: "case mediaRecorder page0 of None \<Rightarrow> True | Some i \<Rightarrow> recorderState page0 i \<noteq> Recording"
    by (simp add: page0_def blank_def)
  have g: "hasMedia (granted page0)" "isRecording (granted page0)" "pending (granted page0) = []"
    by (simp_all add: granted_def page0_def blank_def)
  have "capturing s1 \<le> 1" "stopRecording page0 = page0"
    using l c r i single_capture_by_toggle [of "\<lparr>item = Some ''sess_1_abc'', readable = True, writable = True\<rparr>"
        "''1''" "''x''" True page0 _ s1 page0]
    by blast+
  moreover have "micClick (granted page0) = stopRecording (granted page0)"
    "pending (stopRecording (granted page0)) = []"
    "pending (startRecording (granted page0)) = [DeviceGrant]"
    using g single_capture_by_toggle [of _ _ _ _ _ _ _ "granted page0"]
    by simp_all
  ultimately show ?thesis
    using l c r g by blast
qed

text \<open>
  Claim C3 as stated fails: two clicks before the device is granted start two recorders,
  and both capture at once.
\<close>

theorem reentrant_start_counterexample:
  "map_option recorders (run [MicClick, MicClick, Settle 0 Stream, Settle 0 Stream] page0)
     = Some [Recording, Recording] \<and>
   map_option capturing (run [MicClick, MicClick, Settle 0 Stream, Settle 0 Stream] page0)
     = Some 2"
  by (simp add: page0_def blank_def handler_defs capturing_def)

end
